theory Spec2Isabelle
  imports Main "HOL-Library.Word" "HOL-Library.Char_ord" "HOL-Library.List_Lexorder"
begin

section \<open>The ROS workspace extension of rocker (\<open>src/rocker/ros_ws.py\<close>)\<close>

text \<open>
  The extension does two things with a workspace directory: \<open>get_files\<close> walks it and
  builds the dictionary of files for the Docker build context, and \<open>get_rosdeps\<close>
  reads every \<open>package.xml\<close> and returns the sorted names of the dependencies that
  the workspace does not provide itself. Both only read the file system, so the file
  system is modelled as a value: the tree that hangs below the workspace path.
\<close>

subsection \<open>The file system\<close>

text \<open>
  What \<open>open(...).read()\<close> gives for a regular file: the text when the bytes decode
  (the \<open>try\<close> branch), the raw bytes when the text read raises
  \<open>UnicodeDecodeError\<close> (the \<open>except\<close> branch).
\<close>

datatype content = TextContent string | BinaryContent "8 word list"

text \<open>
  A node is a regular file, a symbolic link or a directory. \<open>File None\<close> is a file
  that \<open>open\<close> cannot read (it raises \<open>OSError\<close>). A link carries the text
  \<open>os.readlink\<close> returns and the node its target path denotes, \<open>None\<close> when the
  link dangles. A directory carries its entries in the order of \<open>os.listdir\<close>.
  The tree is finite: a cycle of links is not represented, and every directory can be
  listed.
\<close>

datatype fsnode =
    File "content option"
  | Symlink string "fsnode option"
  | Dir "(string \<times> fsnode) list"

datatype error = ValueError | AttributeError | OSError

text \<open>Following links to the node they finally denote, as \<open>stat\<close> does.\<close>

fun resolve :: "fsnode \<Rightarrow> fsnode option" where
  "resolve (Symlink t None) = None"
| "resolve (Symlink t (Some n)) = resolve n"
| "resolve (File c) = Some (File c)"
| "resolve (Dir es) = Some (Dir es)"

text \<open>\<open>os.path.isdir\<close>, \<open>os.path.exists\<close> and \<open>os.listdir\<close> follow links;
  \<open>os.path.islink\<close> and \<open>os.readlink\<close> look at the node itself.\<close>

definition isdir :: "fsnode \<Rightarrow> bool" where
  "isdir n = (case resolve n of Some (Dir es) \<Rightarrow> True | _ \<Rightarrow> False)"

definition listdir :: "fsnode \<Rightarrow> (string \<times> fsnode) list" where
  "listdir n = (case resolve n of Some (Dir es) \<Rightarrow> es | _ \<Rightarrow> [])"

definition islink :: "fsnode \<Rightarrow> bool" where
  "islink n = (case n of Symlink t x \<Rightarrow> True | _ \<Rightarrow> False)"

definition readlink :: "fsnode \<Rightarrow> string" where
  "readlink n = (case n of Symlink t x \<Rightarrow> t | _ \<Rightarrow> [])"

text \<open>\<open>os.path.exists(os.path.join(path, name))\<close> for a directory with entries \<open>es\<close>:
  there is an entry of that name and it is not a dangling link.\<close>

definition entry_exists :: "(string \<times> fsnode) list \<Rightarrow> string \<Rightarrow> bool" where
  "entry_exists es name = (case map_of es name of None \<Rightarrow> False | Some n \<Rightarrow> resolve n \<noteq> None)"

subsection \<open>Paths and strings\<close>

text \<open>\<open>posixpath.join\<close> with two arguments, \<open>posixpath.basename\<close>.\<close>

definition path_join :: "string \<Rightarrow> string \<Rightarrow> string" where
  "path_join a b =
     (if b \<noteq> [] \<and> hd b = CHR ''/'' then b
      else if a = [] \<or> last a = CHR ''/'' then a @ b
      else a @ ''/'' @ b)"

definition basename :: "string \<Rightarrow> string" where
  "basename p = rev (takeWhile (\<lambda>c. c \<noteq> CHR ''/'') (rev p))"

text \<open>
  \<open>str.replace(old, new)\<close>: every occurrence of \<open>old\<close>, found from the left and not
  overlapping, is replaced. With an empty \<open>old\<close> Python puts \<open>new\<close> before every
  character and at the end.
\<close>

function replace_all :: "string \<Rightarrow> string \<Rightarrow> string \<Rightarrow> string" where
  "replace_all old new s =
     (if s = [] then []
      else if old \<noteq> [] \<and> take (length old) s = old
        then new @ replace_all old new (drop (length old) s)
      else hd s # replace_all old new (tl s))"
  by pat_completeness auto
termination
  by (relation "measure (\<lambda>(old, new, s). length s)") auto

declare replace_all.simps [simp del]

definition str_replace :: "string \<Rightarrow> string \<Rightarrow> string \<Rightarrow> string" where
  "str_replace s old new =
     (if old = [] then new @ concat (map (\<lambda>c. c # new) s) else replace_all old new s)"

subsection \<open>\<open>get_files\<close>: the walk and the build-context dictionary\<close>

definition is_workspace_volume :: "fsnode \<Rightarrow> bool" where
  "is_workspace_volume workspace = (if isdir workspace then True else False)"

text \<open>
  The generator \<open>get_files_from_path\<close>. It yields path strings; the model pairs each
  with the node found there, which is what \<open>os.path.islink\<close> and \<open>open\<close> consult
  afterwards.
\<close>

function get_files_from_path :: "string \<Rightarrow> fsnode \<Rightarrow> bool \<Rightarrow> bool \<Rightarrow> (string \<times> fsnode) list" where
  "get_files_from_path path node only_ros_pacakges is_ros_package =
     (if isdir node then
        (if \<not> basename path = ''.git'' then
           (let is_ros_package' =
                  (if \<not> is_ros_package then entry_exists (listdir node) ''package.xml''
                   else is_ros_package)
            in concat (map (\<lambda>(basename, child).
                 get_files_from_path (path_join path basename) child only_ros_pacakges is_ros_package')
                 (listdir node)))
         else [])
      else
        (if \<not> only_ros_pacakges then [(path, node)] else []) @
        (if only_ros_pacakges \<and> is_ros_package then [(path, node)] else []))"
  by pat_completeness auto

lemma resolve_size: "resolve n = Some m \<Longrightarrow> size m \<le> size n"
  by (induction n rule: resolve.induct) auto

lemma entry_size: "(b, c) \<in> set es \<Longrightarrow> size c < size (Dir es)"
  by (induction es) auto

lemma listdir_size: "(b, c) \<in> set (listdir n) \<Longrightarrow> size c < size n"
proof -
  assume h: "(b, c) \<in> set (listdir n)"
  then have "\<exists>es. resolve n = Some (Dir es) \<and> (b, c) \<in> set es"
    by (cases "resolve n") (auto simp: listdir_def split: fsnode.splits)
  then obtain es where r: "resolve n = Some (Dir es)" and m: "(b, c) \<in> set es"
    by blast
  from entry_size [OF m] resolve_size [OF r] show ?thesis by simp
qed

termination get_files_from_path
  by (relation "measure (\<lambda>(path, node, only, flag). size node)") (auto dest: listdir_size)

declare get_files_from_path.simps [simp del]


text \<open>
  \<open>open(filepath)\<close> followed by \<open>read()\<close>: the content of the regular file the
  path denotes, \<open>None\<close> when the call raises \<open>OSError\<close> (an unreadable file, a
  dangling link, a directory).
\<close>

definition read_file :: "fsnode \<Rightarrow> content option" where
  "read_file n = (case resolve n of Some (File c) \<Rightarrow> c | _ \<Rightarrow> None)"

text \<open>The dictionary key: \<open>filepath.replace(os.path.expanduser(dir), "ros_ws_src" + os.path.sep)\<close>.
  Here and below \<open>root\<close> is the string \<open>os.path.expanduser(dir)\<close>, which the source
  computes from \<open>dir\<close> and the environment at both places it is used.\<close>

definition virtual_path :: "string \<Rightarrow> string \<Rightarrow> string" where
  "virtual_path root filepath = str_replace filepath root (''ros_ws_src'' @ ''/'')"

text \<open>What the specification describes instead: only a leading occurrence of the root
  is replaced, the rest of the path is kept.\<close>

definition replace_leading :: "string \<Rightarrow> string \<Rightarrow> string \<Rightarrow> string" where
  "replace_leading s old new =
     (if take (length old) s = old then new @ drop (length old) s else s)"

definition symlink_warning :: "string \<times> fsnode \<Rightarrow> string" where
  "symlink_warning x =
     ''Warning: Could not copy symlink '' @ fst x @ '' -> '' @ readlink (snd x)"

text \<open>
  The loop of \<open>generate_ws_files\<close> over the yielded paths, with the dictionary
  \<open>ws_files\<close> and the lines printed so far as its state. A failing \<open>open\<close> is not
  caught: it ends the loop with the error (the printed lines remain printed).
\<close>

fun ws_files_loop ::
  "string \<Rightarrow> (string \<times> fsnode) list \<Rightarrow> (string \<rightharpoonup> content) \<Rightarrow> string list
     \<Rightarrow> string list \<times> (error + (string \<rightharpoonup> content))" where
  "ws_files_loop root [] ws_files out = (out, Inr ws_files)"
| "ws_files_loop root ((filepath, node) # rest) ws_files out =
     (if islink node then
        ws_files_loop root rest ws_files (out @ [symlink_warning (filepath, node)])
      else
        (case read_file node of
           None \<Rightarrow> (out, Inl OSError)
         | Some c \<Rightarrow> ws_files_loop root rest (ws_files(virtual_path root filepath \<mapsto> c)) out))"

definition generate_ws_files ::
  "string \<Rightarrow> fsnode \<Rightarrow> bool \<Rightarrow> string list \<times> (error + (string \<rightharpoonup> content))" where
  "generate_ws_files root ws only_ros_pacakges =
     ws_files_loop root (get_files_from_path root ws only_ros_pacakges False) Map.empty []"

definition get_files :: "string \<Rightarrow> fsnode \<Rightarrow> string list \<times> (error + (string \<rightharpoonup> content))" where
  "get_files root ws =
     (if is_workspace_volume ws then generate_ws_files root ws True
      else ([], Inl ValueError))"

subsection \<open>Where a file lies in the tree\<close>

text \<open>
  To say "beneath a directory" the tree is enumerated independently of the walk: every
  path that is not a directory, with the directories above it from the root down, each
  given by its path string and its entries.
\<close>

type_synonym ancestors = "(string \<times> (string \<times> fsnode) list) list"

function all_leaves :: "string \<Rightarrow> fsnode \<Rightarrow> (ancestors \<times> string \<times> fsnode) list" where
  "all_leaves path node =
     (if isdir node then
        concat (map (\<lambda>(b, child).
          map (\<lambda>(anc, leaf). ((path, listdir node) # anc, leaf))
              (all_leaves (path_join path b) child))
          (listdir node))
      else [([], (path, node))])"
  by pat_completeness auto
termination
  by (relation "measure (\<lambda>(path, node). size node)") (auto dest: listdir_size)

declare all_leaves.simps [simp del]

definition beneath_git :: "ancestors \<Rightarrow> bool" where
  "beneath_git anc = list_ex (\<lambda>(d, es). basename d = ''.git'') anc"

definition in_package :: "ancestors \<Rightarrow> bool" where
  "in_package anc = list_ex (\<lambda>(d, es). entry_exists es ''package.xml'') anc"


text \<open>The test a leaf has to pass, given the two flags the walk was started with.\<close>

definition selected :: "bool \<Rightarrow> bool \<Rightarrow> ancestors \<times> string \<times> fsnode \<Rightarrow> bool" where
  "selected only_ros_pacakges is_ros_package x =
     (\<not> beneath_git (fst x) \<and> (\<not> only_ros_pacakges \<or> is_ros_package \<or> in_package (fst x)))"

subsection \<open>\<open>get_rosdeps\<close>: the manifests and their dependencies\<close>

text \<open>
  An element of an \<open>xml.etree.ElementTree\<close> document: its tag, its text (\<open>None\<close>
  when the element has no text before its first child) and its children in document
  order.
\<close>

datatype element = Element (tag: string) (elem_text: "string option") (children: "element list")

text \<open>
  The XML parser is the library's, not this repository's: it is a parameter, the
  function from a file's content to the root element, \<open>None\<close> where
  \<open>ET.parse\<close> raises \<open>ET.ParseError\<close>.
\<close>

type_synonym xml_parser = "content \<Rightarrow> element option"

text \<open>\<open>root.findall(tag)\<close> and \<open>root.find(tag)\<close> for a plain tag: the direct
  children with that tag, and the first of them.\<close>

definition findall :: "element \<Rightarrow> string \<Rightarrow> element list" where
  "findall root t = filter (\<lambda>e. tag e = t) (children root)"

definition find_element :: "element \<Rightarrow> string \<Rightarrow> element option" where
  "find_element root t = (case findall root t of [] \<Rightarrow> None | e # es \<Rightarrow> Some e)"

text \<open>\<open>str.strip()\<close>: the white space of \<open>str.isspace\<close> among the
  characters up to \<open>0xff\<close> (tab, line feed, vertical tab, form feed, carriage return,
  the four separators \<open>0x1c\<close> to \<open>0x1f\<close>, space, next line \<open>0x85\<close>, no-break
  space \<open>0xa0\<close>) is dropped from both ends.\<close>

definition isspace :: "char \<Rightarrow> bool" where
  "isspace c = ((of_char c :: nat) \<in> {9, 10, 11, 12, 13, 28, 29, 30, 31, 32, 133, 160})"

definition strip :: "string \<Rightarrow> string" where
  "strip s = rev (dropWhile isspace (rev (dropWhile isspace s)))"

definition depend_tags :: "string list" where
  "depend_tags = [''depend'', ''build_depend'', ''run_depend'', ''exec_depend'', ''test_depend'']"

text \<open>The body of \<open>for dep in root.findall(tag)\<close>: \<open>if dep.text\<close> holds for a
  text that is there and not empty.\<close>

definition add_dep :: "element \<Rightarrow> string set \<Rightarrow> string set" where
  "add_dep dep deps =
     (case elem_text dep of
        None \<Rightarrow> deps
      | Some t \<Rightarrow> if t \<noteq> [] then insert (strip t) deps else deps)"

definition add_depends :: "element \<Rightarrow> string set \<Rightarrow> string set" where
  "add_depends root deps =
     fold (\<lambda>t deps. fold add_dep (findall root t) deps) depend_tags deps"

text \<open>
  \<open>os.walk(top)\<close> with its defaults: top down, errors ignored, links to directories
  listed among \<open>dirs\<close> but not entered. Each step gives the directory's path and its
  entries split into \<open>dirs\<close> and \<open>files\<close>, here with their nodes.
\<close>

function os_walk ::
  "string \<Rightarrow> fsnode \<Rightarrow> (string \<times> (string \<times> fsnode) list \<times> (string \<times> fsnode) list) list" where
  "os_walk dirpath node =
     (if isdir node then
        (let dirs = filter (\<lambda>(b, c). isdir c) (listdir node);
             files = filter (\<lambda>(b, c). \<not> isdir c) (listdir node)
         in (dirpath, dirs, files) #
            concat (map (\<lambda>(b, c). if \<not> islink c then os_walk (path_join dirpath b) c else []) dirs))
      else [])"
  by pat_completeness auto
termination
  by (relation "measure (\<lambda>(dirpath, node). size node)") (auto dest: listdir_size)

declare os_walk.simps [simp del]

text \<open>The first loop of \<open>get_rosdeps\<close>: the list \<open>package_xmls\<close>.\<close>

definition find_package_xmls :: "string \<Rightarrow> fsnode \<Rightarrow> (string \<times> fsnode) list" where
  "find_package_xmls workspace ws =
     concat (map (\<lambda>(root, dirs, files).
         (case map_of files ''package.xml'' of
            Some n \<Rightarrow> [(path_join root ''package.xml'', n)]
          | None \<Rightarrow> []))
       (os_walk workspace ws))"

definition parse_warning :: "string \<Rightarrow> string" where
  "parse_warning package_xml = ''Warning: Could not parse '' @ package_xml"

text \<open>
  The second loop, with the sets \<open>deps\<close> and \<open>src_packages\<close> and the lines printed
  so far as its state. Only \<open>ET.ParseError\<close> is caught. A manifest that cannot be
  read raises \<open>OSError\<close>; \<open>root.find('name')\<close> returning \<open>None\<close>, or a name
  element whose \<open>text\<close> is \<open>None\<close>, raises \<open>AttributeError\<close>: both leave the
  function.
\<close>

fun parse_loop ::
  "xml_parser \<Rightarrow> (string \<times> fsnode) list \<Rightarrow> string set \<Rightarrow> string set \<Rightarrow> string list
     \<Rightarrow> string list \<times> (error + string set \<times> string set)" where
  "parse_loop ET_parse [] deps src_packages out = (out, Inr (deps, src_packages))"
| "parse_loop ET_parse ((package_xml, node) # rest) deps src_packages out =
     (case read_file node of
        None \<Rightarrow> (out, Inl OSError)
      | Some c \<Rightarrow>
          (case ET_parse c of
             None \<Rightarrow> parse_loop ET_parse rest deps src_packages (out @ [parse_warning package_xml])
           | Some root \<Rightarrow>
               (case find_element root ''name'' of
                  None \<Rightarrow> (out, Inl AttributeError)
                | Some name \<Rightarrow>
                    (case elem_text name of
                       None \<Rightarrow> (out, Inl AttributeError)
                     | Some t \<Rightarrow>
                         parse_loop ET_parse rest (add_depends root deps)
                           (insert (strip t) src_packages) out))))"

definition rosdeps_of ::
  "xml_parser \<Rightarrow> (string \<times> fsnode) list \<Rightarrow> string list \<times> (error + string list)" where
  "rosdeps_of ET_parse package_xmls =
     (case parse_loop ET_parse package_xmls {} {} [] of
        (out, Inl e) \<Rightarrow> (out, Inl e)
      | (out, Inr (deps, src_packages)) \<Rightarrow> (out, Inr (sorted_list_of_set (deps - src_packages))))"

definition get_rosdeps ::
  "xml_parser \<Rightarrow> string \<Rightarrow> fsnode \<Rightarrow> string list \<times> (error + string list)" where
  "get_rosdeps ET_parse workspace ws =
     (if is_workspace_volume ws then rosdeps_of ET_parse (find_package_xmls workspace ws)
      else ([], Inl ValueError))"


subsection \<open>What the manifests declare\<close>













subsection \<open>Example workspaces\<close>

text \<open>A package \<open>pkg\<close> with a manifest and a \<open>.git\<close> directory, and a file beside it.\<close>

definition ws_git_in_package :: fsnode where
  "ws_git_in_package =
     Dir [(''pkg'', Dir [(''package.xml'', File (Some (TextContent ''<package/>''))),
                         (''.git'', Dir [(''HEAD'', File (Some (TextContent ''ref'')))])]),
          (''README'', File (Some (TextContent ''notes'')))]"

text \<open>A package with a dangling link in it; a link to a file beside a package; a link
  to a directory.\<close>

definition ws_with_link :: fsnode where
  "ws_with_link =
     Dir [(''pkg'', Dir [(''package.xml'', File (Some (TextContent ''<package/>''))),
                         (''data'', Symlink ''/opt/data.bin'' None),
                         (''src'', Dir [(''main.py'', File (Some (TextContent ''print(1)'')))])])]"

definition ws_link_outside :: fsnode where
  "ws_link_outside =
     Dir [(''pkg'', Dir [(''package.xml'', File (Some (TextContent ''<package/>'')))]),
          (''notes'', Symlink ''/etc/hosts'' (Some (File (Some (TextContent ''localhost'')))))]"

definition ws_dir_link :: fsnode where
  "ws_dir_link =
     Dir [(''lnk'', Symlink ''/data'' (Some (Dir [(''f'', File (Some (TextContent ''x'')))])))]"

text \<open>A workspace at \<open>/ws\<close> with a directory \<open>ws_tools\<close> in a package; a workspace at
  \<open>/w\<close> with a file \<open>wb\<close> in \<open>a\<close> and a directory \<open>aros_ws_src\<close>.\<close>

definition ws_root_reoccurs :: fsnode where
  "ws_root_reoccurs =
     Dir [(''pkg'', Dir [(''package.xml'', File (Some (TextContent ''<package/>''))),
                         (''ws_tools'', Dir [(''x.py'', File (Some (TextContent ''pass'')))])])]"

definition ws_colliding :: fsnode where
  "ws_colliding =
     Dir [(''package.xml'', File (Some (TextContent ''<package/>''))),
          (''a'', Dir [(''wb'', File (Some (TextContent ''one'')))]),
          (''aros_ws_src'', Dir [(''b'', File (Some (TextContent ''two'')))])]"

text \<open>
  Manifests, and what \<open>ET.parse\<close> returns for them: \<open>example_parse\<close> is the
  library's parser on these documents (\<open>doc_broken\<close> is not in the table: it is
  not well-formed XML).
\<close>

definition doc_pkg_a :: content where
  "doc_pkg_a = TextContent
     ''<package><name>pkg_a</name><depend>pkg_b</depend><depend>libfoo</depend></package>''"

definition doc_pkg_b :: content where
  "doc_pkg_b = TextContent
     ''<package><name>pkg_b</name><exec_depend>libbar</exec_depend></package>''"

definition doc_no_name :: content where
  "doc_no_name = TextContent ''<package><depend>libfoo</depend></package>''"


definition doc_blank_depend :: content where
  "doc_blank_depend = TextContent
     ''<package><name>pkg_c</name><depend> </depend></package>''"

definition example_parse :: xml_parser where
  "example_parse = map_of
     [(doc_pkg_a, Element ''package'' None
         [Element ''name'' (Some ''pkg_a'') [], Element ''depend'' (Some ''pkg_b'') [],
          Element ''depend'' (Some ''libfoo'') []]),
      (doc_pkg_b, Element ''package'' None
         [Element ''name'' (Some ''pkg_b'') [], Element ''exec_depend'' (Some ''libbar'') []]),
      (doc_no_name, Element ''package'' None [Element ''depend'' (Some ''libfoo'') []]),
      (doc_blank_depend, Element ''package'' None
         [Element ''name'' (Some ''pkg_c'') [], Element ''depend'' (Some '' '') []])]"


definition ws_no_name :: fsnode where
  "ws_no_name =
     Dir [(''pkg_b'', Dir [(''package.xml'', File (Some doc_pkg_b))]),
          (''pkg_x'', Dir [(''package.xml'', File (Some doc_no_name))])]"


definition ws_blank_depend :: fsnode where
  "ws_blank_depend = Dir [(''pkg_c'', Dir [(''package.xml'', File (Some doc_blank_depend))])]"

definition ws_manifest_directory :: fsnode where
  "ws_manifest_directory =
     Dir [(''pkg'', Dir [(''package.xml'', Dir [(''notes.txt'', File (Some (TextContent ''n'')))]),
                         (''main.py'', File (Some (TextContent ''pass'')))])]"




section \<open>The walk selects the leaves outside \<open>.git\<close>, and inside a package when asked\<close>

lemma beneath_git_simps:
  "beneath_git [] = False"
  "beneath_git ((d, es) # anc) = (basename d = ''.git'' \<or> beneath_git anc)"
  by (simp_all add: beneath_git_def)

lemma in_package_simps:
  "in_package [] = False"
  "in_package ((d, es) # anc) = (entry_exists es ''package.xml'' \<or> in_package anc)"
  by (simp_all add: in_package_def)

lemma map_snd_filter_push:
  "map snd (filter Q (map (\<lambda>(anc, leaf). (a # anc, leaf)) xs)) =
   map snd (filter (\<lambda>x. Q (a # fst x, snd x)) xs)"
  by (induction xs) auto

lemma selected_push:
  "selected only flag ((d, es) # anc, leaf) =
     (basename d \<noteq> ''.git'' \<and> selected only (flag \<or> entry_exists es ''package.xml'') (anc, leaf))"
  by (auto simp: selected_def beneath_git_simps in_package_simps)

lemma get_files_from_path_selected:
  "get_files_from_path path node only flag =
     map snd (filter (selected only flag) (all_leaves path node))"
proof (induction path node only flag rule: get_files_from_path.induct)
  case (1 path node only flag)
  show ?case
  proof (cases "isdir node")
    case False
    then show ?thesis
      by (subst get_files_from_path.simps, subst all_leaves.simps)
         (auto simp: selected_def beneath_git_simps in_package_simps)
  next
    case dir: True
    let ?es = "listdir node"
    let ?flag' = "flag \<or> entry_exists ?es ''package.xml''"
    have rhs: "map snd (filter (selected only flag) (all_leaves path node)) =
        concat (map (\<lambda>(b, child). map snd (filter (\<lambda>x. selected only flag ((path, ?es) # fst x, snd x))
                  (all_leaves (path_join path b) child))) ?es)"
      using dir
      by (subst all_leaves.simps)
         (simp add: filter_concat map_concat comp_def case_prod_unfold
            map_snd_filter_push [unfolded case_prod_unfold])
    show ?thesis
    proof (cases "basename path = ''.git''")
      case True
      have "map snd (filter (selected only flag) (all_leaves path node)) = []"
        unfolding rhs using True by (simp add: selected_push case_prod_unfold)
      moreover have "get_files_from_path path node only flag = []"
        using dir True by (subst get_files_from_path.simps) simp
      ultimately show ?thesis by simp
    next
      case False
      have lhs: "get_files_from_path path node only flag =
          concat (map (\<lambda>(b, child). get_files_from_path (path_join path b) child only ?flag') ?es)"
        using dir False by (subst get_files_from_path.simps) (auto simp: Let_def)
      have "\<And>b child. (b, child) \<in> set ?es \<Longrightarrow>
          get_files_from_path (path_join path b) child only ?flag' =
          map snd (filter (selected only ?flag') (all_leaves (path_join path b) child))"
        using "1.IH" [OF dir _ refl] False by (cases flag) auto
      then show ?thesis
        unfolding lhs rhs using False
        by (auto simp: selected_push intro!: arg_cong [where f = concat])
    qed
  qed
qed

text \<open>
  Claim C5, as amended. With \<open>only_ros_pacakges\<close> the walk yields exactly the paths
  that are not directories, do not lie beneath a directory whose base name is
  \<open>.git\<close>, and lie beneath a directory in which \<open>package.xml\<close> exists; without it,
  exactly the paths that are not directories and do not lie beneath a \<open>.git\<close>
  directory. The order is the order of the tree.
\<close>

theorem get_files_from_path_selection:
  "get_files_from_path root ws True False =
     map snd (filter (\<lambda>x. \<not> beneath_git (fst x) \<and> in_package (fst x)) (all_leaves root ws))
   \<and> get_files_from_path root ws False False =
     map snd (filter (\<lambda>x. \<not> beneath_git (fst x)) (all_leaves root ws))"
  by (simp add: get_files_from_path_selected selected_def [abs_def])

theorem get_files_from_path_selection_witness:
  "get_files_from_path ''/ws'' ws_git_in_package True False =
     [(''/ws/pkg/package.xml'', File (Some (TextContent ''<package/>'')))]
   \<and> get_files_from_path ''/ws'' ws_git_in_package False False =
     [(''/ws/pkg/package.xml'', File (Some (TextContent ''<package/>''))),
      (''/ws/README'', File (Some (TextContent ''notes'')))]"
proof -
  have "map snd (filter (\<lambda>x. \<not> beneath_git (fst x) \<and> in_package (fst x))
          (all_leaves ''/ws'' ws_git_in_package)) =
        [(''/ws/pkg/package.xml'', File (Some (TextContent ''<package/>'')))]"
    by code_simp
  moreover have "map snd (filter (\<lambda>x. \<not> beneath_git (fst x))
          (all_leaves ''/ws'' ws_git_in_package)) =
        [(''/ws/pkg/package.xml'', File (Some (TextContent ''<package/>''))),
         (''/ws/README'', File (Some (TextContent ''notes'')))]"
    by code_simp
  ultimately show ?thesis
    using get_files_from_path_selection [of "''/ws''" ws_git_in_package] by simp
qed

text \<open>
  Claim C5 as it is written fails on \<open>ws_git_in_package\<close>: \<open>/ws/pkg/.git/HEAD\<close>
  lies beneath the package directory \<open>/ws/pkg\<close> and is yielded in neither mode.
\<close>

theorem packages_only_git_counterexample:
  "map (fst \<circ> snd) (filter (in_package \<circ> fst) (all_leaves ''/ws'' ws_git_in_package)) =
     [''/ws/pkg/package.xml'', ''/ws/pkg/.git/HEAD'']
   \<and> map fst (get_files_from_path ''/ws'' ws_git_in_package True False) =
     [''/ws/pkg/package.xml'']
   \<and> map fst (get_files_from_path ''/ws'' ws_git_in_package False False) =
     [''/ws/pkg/package.xml'', ''/ws/README'']"
  by code_simp


section \<open>Base names of the paths the walk builds\<close>

text \<open>An entry name of a directory is not empty and has no separator in it, so the base
  name of the joined path is the entry name: the \<open>.git\<close> test looks at the entry.\<close>

lemma basename_append:
  assumes "CHR ''/'' \<notin> set b"
  shows "basename (a @ b) = basename a @ b"
proof -
  have "takeWhile (\<lambda>c. c \<noteq> CHR ''/'') (rev b @ rev a) =
        rev b @ takeWhile (\<lambda>c. c \<noteq> CHR ''/'') (rev a)"
    using assms by (intro takeWhile_append2) auto
  then show ?thesis by (simp add: basename_def)
qed

lemma basename_slash: "basename (a @ ''/'') = []"
  by (simp add: basename_def)

lemma basename_path_join:
  assumes "b \<noteq> []" "CHR ''/'' \<notin> set b"
  shows "basename (path_join a b) = b"
proof -
  have hd: "hd b \<noteq> CHR ''/''" using assms by (cases b) auto
  consider "a = []" | "a \<noteq> []" "last a = CHR ''/''" | "a \<noteq> []" "last a \<noteq> CHR ''/''"
    by blast
  then show ?thesis
  proof cases
    case 1
    then show ?thesis using assms hd basename_append [of b "[]"]
      by (simp add: path_join_def basename_def)
  next
    case 2
    then have "a = butlast a @ ''/''" by (metis append_butlast_last_id)
    then have "basename a = []" using basename_slash [of "butlast a"] by simp
    then show ?thesis using 2 assms hd basename_append [of b a]
      by (simp add: path_join_def)
  next
    case 3
    have "basename ((a @ ''/'') @ b) = b"
      using basename_append [OF assms(2), of "a @ ''/''"] basename_slash [of a] by simp
    then show ?thesis using 3 hd assms by (simp add: path_join_def)
  qed
qed

section \<open>The dictionary is built from the yielded files that are not links\<close>

lemma ws_files_loop_snd_links:
  "snd (ws_files_loop root xs m out) =
   snd (ws_files_loop root (filter (\<lambda>x. \<not> islink (snd x)) xs) m out')"
  by (induction xs arbitrary: m out out') (auto split: option.splits)

lemma ws_files_loop_returns:
  assumes "\<forall>x \<in> set xs. \<not> islink (snd x) \<longrightarrow> read_file (snd x) \<noteq> None"
  shows "\<exists>m'. ws_files_loop root xs m out =
           (out @ map symlink_warning (filter (\<lambda>x. islink (snd x)) xs), Inr m')"
  using assms
proof (induction xs arbitrary: m out)
  case Nil
  then show ?case by simp
next
  case (Cons x xs)
  obtain p n where x: "x = (p, n)" by (cases x)
  have rest: "\<forall>x \<in> set xs. \<not> islink (snd x) \<longrightarrow> read_file (snd x) \<noteq> None"
    using Cons.prems by simp
  show ?case
  proof (cases "islink n")
    case True
    from Cons.IH [OF rest, of m "out @ [symlink_warning (p, n)]"] show ?thesis
      using True x by simp
  next
    case False
    with Cons.prems x obtain c' where r: "read_file n = Some c'" by auto
    from Cons.IH [OF rest, of "m(virtual_path root p \<mapsto> c')" out] show ?thesis
      using False x r by (simp del: fun_upd_apply)
  qed
qed

lemma ws_files_loop_entries:
  assumes "snd (ws_files_loop root xs m out) = Inr m'" "m' k = Some c"
  shows "m k = Some c \<or>
         (\<exists>x \<in> set xs. \<not> islink (snd x) \<and> k = virtual_path root (fst x) \<and> read_file (snd x) = Some c)"
  using assms
proof (induction xs arbitrary: m out)
  case Nil
  then show ?case by simp
next
  case (Cons x xs)
  obtain p n where x: "x = (p, n)" by (cases x)
  show ?case
  proof (cases "islink n")
    case True
    with Cons x show ?thesis by auto
  next
    case False
    with Cons.prems x obtain c' where r: "read_file n = Some c'"
      and s: "snd (ws_files_loop root xs (m(virtual_path root p \<mapsto> c')) out) = Inr m'"
      by (auto split: option.splits)
    from Cons.IH [OF s Cons.prems(2)] show ?thesis
      using False r x by (auto split: if_splits)
  qed
qed

lemma ws_files_loop_dom:
  assumes "snd (ws_files_loop root xs m out) = Inr m'"
  shows "dom m' = dom m \<union> (virtual_path root \<circ> fst) ` {x \<in> set xs. \<not> islink (snd x)}"
  using assms
proof (induction xs arbitrary: m out)
  case Nil
  then show ?case by simp
next
  case (Cons x xs)
  obtain p n where x: "x = (p, n)" by (cases x)
  show ?case
  proof (cases "islink n")
    case True
    with Cons x show ?thesis by auto
  next
    case False
    with Cons.prems x obtain c' where r: "read_file n = Some c'"
      and s: "snd (ws_files_loop root xs (m(virtual_path root p \<mapsto> c')) out) = Inr m'"
      by (auto split: option.splits)
    from Cons.IH [OF s]
    have "dom m' = insert (virtual_path root p) (dom m) \<union>
        (virtual_path root \<circ> fst) ` {x \<in> set xs. \<not> islink (snd x)}"
      by (simp del: fun_upd_apply)
    moreover have "{y \<in> set (x # xs). \<not> islink (snd y)} =
        insert x {y \<in> set xs. \<not> islink (snd y)}"
      using False x by auto
    ultimately show ?thesis using x by simp
  qed
qed



section \<open>Nothing beneath \<open>.git\<close> reaches the dictionary\<close>

lemma yielded_leaf:
  assumes "x \<in> set (get_files_from_path root ws only flag)"
  shows "\<exists>anc. (anc, x) \<in> set (all_leaves root ws) \<and> \<not> beneath_git anc"
proof -
  from assms have "x \<in> snd ` {y \<in> set (all_leaves root ws). selected only flag y}"
    by (simp add: get_files_from_path_selected)
  then obtain y where y: "y \<in> set (all_leaves root ws)" "selected only flag y" "x = snd y"
    by blast
  then have "(fst y, x) \<in> set (all_leaves root ws)" "\<not> beneath_git (fst y)"
    by (simp_all add: selected_def)
  then show ?thesis by blast
qed

text \<open>
  Claim C9. The base name is the one \<open>os.path.basename\<close> computes from the path
  string; below the root it is the entry name (\<open>basename_path_join\<close>).
  A directory whose base name is \<open>.git\<close> is not traversed: the walk started
  at one yields nothing, whatever the two flags are, and so does the walk of a
  directory entry named \<open>.git\<close>. Every path the walk yields is a leaf of the tree
  with no \<open>.git\<close> directory above it, and every entry of the dictionary that
  \<open>generate_ws_files\<close> returns is the content of such a leaf under its key.
\<close>

theorem git_never_in_context:
  "(isdir node \<and> basename path = ''.git'' \<longrightarrow> get_files_from_path path node only flag = [])
   \<and> (isdir child \<longrightarrow> get_files_from_path (path_join path ''.git'') child only flag = [])
   \<and> (\<forall>x \<in> set (get_files_from_path root ws only flag).
         \<exists>anc. (anc, x) \<in> set (all_leaves root ws) \<and> \<not> beneath_git anc)
   \<and> (\<forall>m k c. snd (generate_ws_files root ws only) = Inr m \<and> m k = Some c \<longrightarrow>
         (\<exists>anc p n. (anc, p, n) \<in> set (all_leaves root ws) \<and> \<not> beneath_git anc
            \<and> k = virtual_path root p \<and> read_file n = Some c))"
proof (intro conjI impI allI ballI)
  assume "isdir node \<and> basename path = ''.git''"
  then show "get_files_from_path path node only flag = []"
    by (subst get_files_from_path.simps) simp
next
  assume "isdir child"
  moreover have "basename (path_join path ''.git'') = ''.git''"
    by (rule basename_path_join) simp_all
  ultimately show "get_files_from_path (path_join path ''.git'') child only flag = []"
    by (subst get_files_from_path.simps) simp
next
  fix x assume "x \<in> set (get_files_from_path root ws only flag)"
  then show "\<exists>anc. (anc, x) \<in> set (all_leaves root ws) \<and> \<not> beneath_git anc"
    by (rule yielded_leaf)
next
  fix m k c
  assume h: "snd (generate_ws_files root ws only) = Inr m \<and> m k = Some c"
  then have "\<exists>x \<in> set (get_files_from_path root ws only False).
      \<not> islink (snd x) \<and> k = virtual_path root (fst x) \<and> read_file (snd x) = Some c"
    using ws_files_loop_entries [of root "get_files_from_path root ws only False" Map.empty "[]" m k c]
    by (simp add: generate_ws_files_def)
  then obtain x where x: "x \<in> set (get_files_from_path root ws only False)"
    and k: "k = virtual_path root (fst x)" and c: "read_file (snd x) = Some c"
    by blast
  from yielded_leaf [OF x] obtain anc where "(anc, x) \<in> set (all_leaves root ws)" "\<not> beneath_git anc"
    by blast
  then show "\<exists>anc p n. (anc, p, n) \<in> set (all_leaves root ws) \<and> \<not> beneath_git anc
      \<and> k = virtual_path root p \<and> read_file n = Some c"
    using k c by (cases x) auto
qed

theorem git_never_in_context_witness:
  "isdir (Dir [(''HEAD'', File (Some (TextContent ''ref'')))])
   \<and> basename ''/ws/pkg/.git'' = ''.git''
   \<and> get_files_from_path ''/ws/pkg/.git'' (Dir [(''HEAD'', File (Some (TextContent ''ref'')))]) False True = []
   \<and> (''/ws/README'', File (Some (TextContent ''notes''))) \<in> set (get_files_from_path ''/ws'' ws_git_in_package False False)
   \<and> (\<exists>anc. (anc, ''/ws/README'', File (Some (TextContent ''notes''))) \<in> set (all_leaves ''/ws'' ws_git_in_package)
         \<and> \<not> beneath_git anc)"
proof -
  have a: "isdir (Dir [(''HEAD'', File (Some (TextContent ''ref'')))])" by code_simp
  have b: "basename ''/ws/pkg/.git'' = ''.git''" by code_simp
  have c: "(''/ws/README'', File (Some (TextContent ''notes''))) \<in> set (get_files_from_path ''/ws'' ws_git_in_package False False)"
    by code_simp
  have d: "get_files_from_path ''/ws/pkg/.git'' (Dir [(''HEAD'', File (Some (TextContent ''ref'')))]) False True = []"
    using git_never_in_context [where node = "Dir [(''HEAD'', File (Some (TextContent ''ref'')))]"
      and path = "''/ws/pkg/.git''" and only = False and flag = True,
      THEN conjunct1, THEN mp, OF conjI [OF a b]] .
  have e: "\<exists>anc. (anc, ''/ws/README'', File (Some (TextContent ''notes''))) \<in> set (all_leaves ''/ws'' ws_git_in_package)
         \<and> \<not> beneath_git anc"
    using git_never_in_context [where root = "''/ws''" and ws = ws_git_in_package
      and only = False and flag = False,
      THEN conjunct2, THEN conjunct2, THEN conjunct1, THEN bspec, OF c] .
  show ?thesis by (intro conjI a b c d e)
qed

section \<open>Symbolic links\<close>

text \<open>
  Claim C8, as amended. The yielded paths that are links are skipped, each with one
  printed line naming the link and its target, and the skip raises nothing: the result
  is the one of the loop over the yielded paths that are not links. When these can be
  read the walk returns a dictionary whose keys are exactly their keys and whose
  entries are their contents.
\<close>

theorem symlinks_skipped:
  assumes "\<forall>x \<in> set (get_files_from_path root ws only False).
             \<not> islink (snd x) \<longrightarrow> read_file (snd x) \<noteq> None"
  shows "snd (generate_ws_files root ws only) =
           snd (ws_files_loop root (filter (\<lambda>x. \<not> islink (snd x))
                  (get_files_from_path root ws only False)) Map.empty [])
     \<and> (\<exists>m. generate_ws_files root ws only =
           (map symlink_warning (filter (\<lambda>x. islink (snd x))
              (get_files_from_path root ws only False)), Inr m)
         \<and> dom m = (virtual_path root \<circ> fst) `
              {x \<in> set (get_files_from_path root ws only False). \<not> islink (snd x)}
         \<and> (\<forall>k c. m k = Some c \<longrightarrow>
              (\<exists>x \<in> set (get_files_from_path root ws only False).
                 \<not> islink (snd x) \<and> k = virtual_path root (fst x) \<and> read_file (snd x) = Some c)))"
proof
  show "snd (generate_ws_files root ws only) =
           snd (ws_files_loop root (filter (\<lambda>x. \<not> islink (snd x))
                  (get_files_from_path root ws only False)) Map.empty [])"
    unfolding generate_ws_files_def by (rule ws_files_loop_snd_links)
next
  let ?ys = "get_files_from_path root ws only False"
  from ws_files_loop_returns [OF assms, of root Map.empty "[]"]
  obtain m where m: "generate_ws_files root ws only =
      (map symlink_warning (filter (\<lambda>x. islink (snd x)) ?ys), Inr m)"
    unfolding generate_ws_files_def by auto
  then have s: "snd (ws_files_loop root ?ys Map.empty []) = Inr m"
    by (simp add: generate_ws_files_def)
  have "dom m = (virtual_path root \<circ> fst) ` {x \<in> set ?ys. \<not> islink (snd x)}"
    using ws_files_loop_dom [OF s] by simp
  moreover have "\<forall>k c. m k = Some c \<longrightarrow>
      (\<exists>x \<in> set ?ys. \<not> islink (snd x) \<and> k = virtual_path root (fst x) \<and> read_file (snd x) = Some c)"
    using ws_files_loop_entries [OF s] by simp
  ultimately show "\<exists>m. generate_ws_files root ws only =
           (map symlink_warning (filter (\<lambda>x. islink (snd x)) ?ys), Inr m)
         \<and> dom m = (virtual_path root \<circ> fst) ` {x \<in> set ?ys. \<not> islink (snd x)}
         \<and> (\<forall>k c. m k = Some c \<longrightarrow>
              (\<exists>x \<in> set ?ys. \<not> islink (snd x) \<and> k = virtual_path root (fst x) \<and> read_file (snd x) = Some c))"
    using m by blast
qed


theorem symlinks_skipped_witness:
  "\<exists>m. generate_ws_files ''/ws'' ws_with_link True =
          ([''Warning: Could not copy symlink /ws/pkg/data -> /opt/data.bin''], Inr m)
     \<and> dom m = {''ros_ws_src//pkg/package.xml'', ''ros_ws_src//pkg/src/main.py''}"
proof -
  have h: "\<forall>x \<in> set (get_files_from_path ''/ws'' ws_with_link True False).
             \<not> islink (snd x) \<longrightarrow> read_file (snd x) \<noteq> None"
    by code_simp
  have w: "map symlink_warning (filter (\<lambda>x. islink (snd x))
              (get_files_from_path ''/ws'' ws_with_link True False)) =
           [''Warning: Could not copy symlink /ws/pkg/data -> /opt/data.bin'']"
    by code_simp
  have d: "(virtual_path ''/ws'' \<circ> fst) `
              {x \<in> set (get_files_from_path ''/ws'' ws_with_link True False). \<not> islink (snd x)} =
           {''ros_ws_src//pkg/package.xml'', ''ros_ws_src//pkg/src/main.py''}"
    by code_simp
  from symlinks_skipped [OF h, THEN conjunct2, unfolded w d] show ?thesis
    by (elim exE conjE) (intro exI conjI, assumption+)
qed


text \<open>
  Claim C8 as it is written fails: a link outside every package is not yielded by
  \<open>get_files\<close>, which runs in packages-only mode, so nothing is printed for it; and a
  link to a directory is entered, not reported, in either mode.
\<close>

theorem symlink_diagnostic_counterexample:
  "fst (get_files ''/ws'' ws_link_outside) = []
   \<and> fst (generate_ws_files ''/ws'' ws_dir_link False) = []
   \<and> map fst (get_files_from_path ''/ws'' ws_dir_link False False) = [''/ws/lnk/f'']"
  by code_simp



section \<open>The dictionary keys\<close>

text \<open>Where the root string occurs in a path only at its start, the key is the path with
  the root replaced by \<open>ros_ws_src/\<close>.\<close>

lemma replace_all_absent:
  assumes "old \<noteq> []" "\<forall>i. take (length old) (drop i s) \<noteq> old"
  shows "replace_all old new s = s"
  using assms
proof (induction old new s rule: replace_all.induct)
  case (1 old new s)
  show ?case
  proof (cases "s = []")
    case True
    then show ?thesis by (subst replace_all.simps) simp
  next
    case False
    from "1.prems"(2) [rule_format, of 0] have n: "take (length old) s \<noteq> old" by simp
    have "\<forall>i. take (length old) (drop i (tl s)) \<noteq> old"
    proof
      fix i
      from "1.prems"(2) [rule_format, of "Suc i"] show "take (length old) (drop i (tl s)) \<noteq> old"
        by (simp add: drop_Suc)
    qed
    with "1.IH"(2) [OF False _ "1.prems"(1)] n have "replace_all old new (tl s) = tl s" by simp
    then show ?thesis using False n by (subst replace_all.simps) simp
  qed
qed

lemma virtual_path_leading:
  assumes "root \<noteq> []" "\<forall>i. take (length root) (drop i rest) \<noteq> root"
  shows "virtual_path root (root @ rest) = ''ros_ws_src/'' @ rest"
proof -
  have "replace_all root ''ros_ws_src/'' (root @ rest) = ''ros_ws_src/'' @ replace_all root ''ros_ws_src/'' rest"
    using assms(1) by (subst replace_all.simps) simp
  then show ?thesis using assms replace_all_absent [OF assms, of "''ros_ws_src/''"]
    by (simp add: virtual_path_def str_replace_def)
qed

text \<open>
  Claim C3 fails on the code. \<open>str.replace\<close> replaces every occurrence: in
  \<open>/ws/pkg/ws_tools/x.py\<close> the root \<open>/ws\<close> occurs a second time, at the start of
  \<open>/ws_tools\<close>, and the key that \<open>get_files\<close> stores is not the path with its
  leading root replaced.
\<close>

theorem virtual_path_root_reoccurs:
  "map fst (get_files_from_path ''/ws'' ws_root_reoccurs True False) =
     [''/ws/pkg/package.xml'', ''/ws/pkg/ws_tools/x.py'']
   \<and> virtual_path ''/ws'' ''/ws/pkg/ws_tools/x.py'' = ''ros_ws_src//pkgros_ws_src/_tools/x.py''
   \<and> replace_leading ''/ws/pkg/ws_tools/x.py'' ''/ws'' ''ros_ws_src/'' = ''ros_ws_src//pkg/ws_tools/x.py''
   \<and> (case snd (get_files ''/ws'' ws_root_reoccurs) of
         Inr m \<Rightarrow> m ''ros_ws_src//pkgros_ws_src/_tools/x.py'' = Some (TextContent ''pass'')
                  \<and> m ''ros_ws_src//pkg/ws_tools/x.py'' = None
       | Inl e \<Rightarrow> False)"
  by code_simp

text \<open>
  Claim C4 fails on the code, by the same replacement: the files \<open>/w/a/wb\<close> and
  \<open>/w/aros_ws_src/b\<close> get the same key, and the dictionary keeps the content of the
  second only.
\<close>

theorem virtual_path_collision:
  "map fst (get_files_from_path ''/w'' ws_colliding True False) =
     [''/w/package.xml'', ''/w/a/wb'', ''/w/aros_ws_src/b'']
   \<and> virtual_path ''/w'' ''/w/a/wb'' = ''ros_ws_src//aros_ws_src/b''
   \<and> virtual_path ''/w'' ''/w/aros_ws_src/b'' = ''ros_ws_src//aros_ws_src/b''
   \<and> (case snd (get_files ''/w'' ws_colliding) of
         Inr m \<Rightarrow> m ''ros_ws_src//aros_ws_src/b'' = Some (TextContent ''two'')
       | Inl e \<Rightarrow> False)"
  by code_simp



section \<open>The dependency resolver\<close>

subsection \<open>The loops compute the added sets\<close>













subsection \<open>In a plain tree \<open>os.walk\<close> finds every manifest file\<close>









subsection \<open>The result\<close>




text \<open>
  Claim C2 fails on the code. The manifest of \<open>pkg_x\<close> parses and has no name
  element: \<open>root.find('name')\<close> is \<open>None\<close>, the attribute access raises
  \<open>AttributeError\<close>, which \<open>except ET.ParseError\<close> does not catch, and the whole
  resolution ends there; the sibling \<open>pkg_b\<close> contributes nothing to a result.
\<close>

theorem manifest_without_name_aborts:
  "map fst (find_package_xmls ''/ws'' ws_no_name) =
     [''/ws/pkg_b/package.xml'', ''/ws/pkg_x/package.xml'']
   \<and> get_rosdeps example_parse ''/ws'' ws_no_name = ([], Inl AttributeError)"
  by code_simp

text \<open>
  Claim C7 fails on the code. The test \<open>if dep.text\<close> is made before the text is
  stripped: a dependency element whose text is a single space passes it and adds the
  empty string, which is returned. (That only the five tags contribute, each its
  stripped text, is \<open>add_depends_added\<close>; that the empty string is all that is
  added beyond the declared names is \<open>added_dependencies_declared\<close>.)
\<close>

theorem blank_dependency_enters:
  "get_rosdeps example_parse ''/ws'' ws_blank_depend = ([], Inr [[]])"
  by code_simp





section \<open>A directory named \<open>package.xml\<close>\<close>

lemma all_leaves_ancestor:
  assumes "isdir node" "(anc, leaf) \<in> set (all_leaves path node)"
  shows "\<exists>rest. anc = (path, listdir node) # rest"
  using assms(2) by (subst (asm) all_leaves.simps) (auto simp: assms(1))

lemma entry_exists_directory:
  assumes "(name, n) \<in> set es" "isdir n" "distinct (map fst es)"
  shows "entry_exists es name"
proof -
  have "map_of es name = Some n" using assms(1,3) by simp
  moreover have "resolve n \<noteq> None" using assms(2) by (cases "resolve n") (auto simp: isdir_def)
  ultimately show ?thesis by (simp add: entry_exists_def)
qed

lemma directory_not_among_files:
  assumes "(name, n) \<in> set es" "isdir n" "distinct (map fst es)"
  shows "map_of (filter (\<lambda>(b, c). \<not> isdir c) es) name = None"
proof -
  have "\<And>c. (name, c) \<in> set es \<Longrightarrow> c = n"
    using assms(1,3) by (meson eq_key_imp_eq_value)
  then have "name \<notin> fst ` set (filter (\<lambda>(b, c). \<not> isdir c) es)"
    using assms(2) by auto
  then show ?thesis by (simp add: map_of_eq_None_iff)
qed

text \<open>
  Claim C10. In a directory where \<open>package.xml\<close> exists, the packages-only walk
  yields all that the unrestricted walk yields. \<open>os.path.exists\<close> holds for a
  directory too: an entry \<open>package.xml\<close> that is itself a directory makes its parent
  a package, while \<open>os.walk\<close> lists the entry among \<open>dirs\<close>, so that
  \<open>'package.xml' in files\<close> fails for it. On
  \<open>ws_manifest_directory\<close> the walk selects two files and the resolver finds no
  manifest and returns the empty list, whatever the parser is.
\<close>

theorem manifest_directory_marks_package:
  "(entry_exists es ''package.xml'' \<longrightarrow>
      get_files_from_path path (Dir es) True False = get_files_from_path path (Dir es) False False)
   \<and> ((''package.xml'', n) \<in> set es \<and> isdir n \<and> distinct (map fst es) \<longrightarrow>
      entry_exists es ''package.xml''
      \<and> (case os_walk path (Dir es) of
            [] \<Rightarrow> False
          | (d, dirs, files) # rest \<Rightarrow> d = path \<and> map_of files ''package.xml'' = None))
   \<and> get_files_from_path ''/ws'' ws_manifest_directory True False =
        [(''/ws/pkg/package.xml/notes.txt'', File (Some (TextContent ''n''))),
         (''/ws/pkg/main.py'', File (Some (TextContent ''pass'')))]
   \<and> find_package_xmls ''/ws'' ws_manifest_directory = []
   \<and> get_rosdeps P ''/ws'' ws_manifest_directory = ([], Inr [])"
proof (intro conjI impI)
  assume e: "entry_exists es ''package.xml''"
  have d: "isdir (Dir es)" and l: "listdir (Dir es) = es"
    by (simp_all add: isdir_def listdir_def)
  have "\<And>x. x \<in> set (all_leaves path (Dir es)) \<Longrightarrow> in_package (fst x)"
  proof -
    fix x assume "x \<in> set (all_leaves path (Dir es))"
    then have "(fst x, snd x) \<in> set (all_leaves path (Dir es))" by simp
    from all_leaves_ancestor [OF d this] l obtain rest where "fst x = (path, es) # rest"
      by auto
    then show "in_package (fst x)" using e by (simp add: in_package_simps)
  qed
  then have "filter (selected True False) (all_leaves path (Dir es)) =
             filter (selected False False) (all_leaves path (Dir es))"
    by (intro filter_cong) (auto simp: selected_def)
  then show "get_files_from_path path (Dir es) True False =
             get_files_from_path path (Dir es) False False"
    by (simp add: get_files_from_path_selected)
next
  assume h: "(''package.xml'', n) \<in> set es \<and> isdir n \<and> distinct (map fst es)"
  then show "entry_exists es ''package.xml''"
    by (intro entry_exists_directory [of _ n]) simp_all
next
  assume h: "(''package.xml'', n) \<in> set es \<and> isdir n \<and> distinct (map fst es)"
  have d: "isdir (Dir es)" and l: "listdir (Dir es) = es"
    by (simp_all add: isdir_def listdir_def)
  have "map_of (filter (\<lambda>(b, c). \<not> isdir c) es) ''package.xml'' = None"
    using h by (intro directory_not_among_files [of _ n]) simp_all
  then show "case os_walk path (Dir es) of
            [] \<Rightarrow> False
          | (d, dirs, files) # rest \<Rightarrow> d = path \<and> map_of files ''package.xml'' = None"
    using d l by (subst os_walk.simps) (simp add: Let_def)
next
  show "get_files_from_path ''/ws'' ws_manifest_directory True False =
        [(''/ws/pkg/package.xml/notes.txt'', File (Some (TextContent ''n''))),
         (''/ws/pkg/main.py'', File (Some (TextContent ''pass'')))]"
    by code_simp
next
  show x: "find_package_xmls ''/ws'' ws_manifest_directory = []"
    by code_simp
  have "is_workspace_volume ws_manifest_directory" by code_simp
  then show "get_rosdeps P ''/ws'' ws_manifest_directory = ([], Inr [])"
    by (simp add: get_rosdeps_def x rosdeps_of_def)
qed

theorem manifest_directory_marks_package_witness:
  "(''package.xml'', Dir [(''notes.txt'', File (Some (TextContent ''n'')))]) \<in>
       set [(''package.xml'', Dir [(''notes.txt'', File (Some (TextContent ''n'')))]),
            (''main.py'', File (Some (TextContent ''pass'')))]
   \<and> entry_exists [(''package.xml'', Dir [(''notes.txt'', File (Some (TextContent ''n'')))]),
                    (''main.py'', File (Some (TextContent ''pass'')))] ''package.xml''
   \<and> get_files_from_path ''/ws/pkg''
        (Dir [(''package.xml'', Dir [(''notes.txt'', File (Some (TextContent ''n'')))]),
              (''main.py'', File (Some (TextContent ''pass'')))]) True False =
      get_files_from_path ''/ws/pkg''
        (Dir [(''package.xml'', Dir [(''notes.txt'', File (Some (TextContent ''n'')))]),
              (''main.py'', File (Some (TextContent ''pass'')))]) False False
   \<and> get_files_from_path ''/ws/pkg''
        (Dir [(''package.xml'', Dir [(''notes.txt'', File (Some (TextContent ''n'')))]),
              (''main.py'', File (Some (TextContent ''pass'')))]) False False =
        [(''/ws/pkg/package.xml/notes.txt'', File (Some (TextContent ''n''))),
         (''/ws/pkg/main.py'', File (Some (TextContent ''pass'')))]"
proof -
  let ?n = "Dir [(''notes.txt'', File (Some (TextContent ''n'')))]"
  let ?es = "[(''package.xml'', ?n), (''main.py'', File (Some (TextContent ''pass'')))]"
  note t = manifest_directory_marks_package [where n = ?n and es = ?es and path = "''/ws/pkg''"]
  have a: "(''package.xml'', ?n) \<in> set ?es" by simp
  have b: "isdir ?n" by code_simp
  have c: "distinct (map fst ?es)" by simp
  have v: "get_files_from_path ''/ws/pkg'' (Dir ?es) False False =
        [(''/ws/pkg/package.xml/notes.txt'', File (Some (TextContent ''n''))),
         (''/ws/pkg/main.py'', File (Some (TextContent ''pass'')))]"
    by code_simp
  have e: "entry_exists ?es ''package.xml''"
    using t [THEN conjunct2, THEN conjunct1, THEN mp, OF conjI [OF a conjI [OF b c]],
      THEN conjunct1] .
  have "get_files_from_path ''/ws/pkg'' (Dir ?es) True False =
        get_files_from_path ''/ws/pkg'' (Dir ?es) False False"
    using t [THEN conjunct1, THEN mp, OF e] .
  with a e v show ?thesis by (intro conjI)
qed

end
